theory Spec2Isabelle
  imports Main
begin

section \<open>JavaScript values as they reach \<open>localStorage\<close>\<close>

text \<open>
  Everything the two \<open>Storage\<close> objects keep goes through \<open>JSON.stringify\<close> and
  \<open>JSON.parse\<close>, so a stored value is a JSON tree. An object whose keys are chosen by
  the caller (an application, a profile, a chat message) is a finite map from property
  names to JSON values: a property that is \<open>undefined\<close> is dropped by
  \<open>JSON.stringify\<close>, which is the key being absent from the map. The objects a caller
  passes in (\<open>applicationData\<close>, \<open>profileData\<close>, a chat message) are such maps too:
  none of their properties is set to \<open>undefined\<close>. Strings are sequences of code units
  below 256. \<open>localStorage.setItem\<close> is taken to succeed (no quota error).
\<close>

datatype json =
    JNull
  | JBool bool
  | JNum int
  | JStr string
  | JArr "json list"
  | JObj "(string \<times> json) list"

type_synonym obj = "string \<rightharpoonup> json"

text \<open>JavaScript truthiness of a property read (\<open>None\<close> is \<open>undefined\<close>).\<close>

fun truthy :: "json option \<Rightarrow> bool" where
  "truthy None = False"
| "truthy (Some JNull) = False"
| "truthy (Some (JBool b)) = b"
| "truthy (Some (JNum n)) = (n \<noteq> 0)"
| "truthy (Some (JStr s)) = (s \<noteq> [])"
| "truthy (Some (JArr xs)) = True"
| "truthy (Some (JObj kvs)) = True"

subsection \<open>\<open>String.prototype.toLowerCase\<close> and \<open>trim\<close>\<close>

text \<open>
  On code units below 256, \<open>toLowerCase\<close> maps A-Z and the Latin-1 capitals
  (U+00C0 to U+00DE, without the multiplication sign U+00D7) 32 places up; \<open>trim\<close>
  strips TAB, LF, VT, FF, CR, space and the no-break space from both ends.
\<close>

definition lower_char :: "char \<Rightarrow> char" where
  "lower_char c =
     (let n = (of_char c :: nat)
      in if (65 \<le> n \<and> n \<le> 90) \<or> (192 \<le> n \<and> n \<le> 222 \<and> n \<noteq> 215)
         then char_of (n + 32) else c)"

definition toLowerCase :: "string \<Rightarrow> string" where
  "toLowerCase s = map lower_char s"

definition is_space :: "char \<Rightarrow> bool" where
  "is_space c = ((of_char c :: nat) \<in> {9, 10, 11, 12, 13, 32, 160})"

definition trim :: "string \<Rightarrow> string" where
  "trim s = rev (dropWhile is_space (rev (dropWhile is_space s)))"

subsection \<open>\<open>Array.prototype.findIndex\<close>\<close>

text \<open>\<open>None\<close> is the \<open>-1\<close> of JavaScript.\<close>

fun findIndex :: "('a \<Rightarrow> bool) \<Rightarrow> 'a list \<Rightarrow> nat option" where
  "findIndex P [] = None"
| "findIndex P (x # xs) = (if P x then Some 0 else map_option Suc (findIndex P xs))"

section \<open>The store of \<open>storage.js\<close>\<close>

text \<open>
  A user object as \<open>registerUser\<close> builds it. \<open>password\<close> is optional because the
  session copy has it deleted; \<open>applications\<close> is optional because \<open>addApplication\<close>
  itself provides for a user without one (\<open>users[userIndex].applications || []\<close>).
  \<open>name\<close> is a JSON value: \<open>updateUserProfile\<close> stores whatever \<open>fullName\<close> holds.
\<close>

record user =
  user_id :: string
  user_name :: json
  user_email :: string
  user_password :: "string option"
  user_createdAt :: string
  user_profile :: obj
  user_applications :: "obj list option"

text \<open>
  The three keys of \<open>localStorage\<close>. A missing \<open>visa_users\<close> or
  \<open>visa_applications\<close> reads as the empty array (\<open>this.get(...) || []\<close>), so both are
  lists; a missing \<open>visa_current_user\<close> reads as \<open>null\<close>.
\<close>

record storage =
  visa_users :: "user list"
  visa_current_user :: "user option"
  visa_applications :: "obj list"

text \<open>
  What an operation returns: \<open>{success: true, ...}\<close>, \<open>{success: false, message}\<close>,
  or it throws a \<open>TypeError\<close>.
\<close>

datatype 'a outcome = Success 'a | Failure string | Throws_TypeError

fun succeeded :: "'a outcome \<Rightarrow> bool" where
  "succeeded (Success x) = True"
| "succeeded (Failure m) = False"
| "succeeded Throws_TypeError = False"

text \<open>
  \<open>generateId(prefix)\<close> appends the base-36 clock and six random digits to the prefix;
  the digits are the argument \<open>entropy\<close>. The clock readings of
  \<open>new Date().toISOString()\<close> are arguments as well.
\<close>

definition generateId :: "string \<Rightarrow> string \<Rightarrow> string" where
  "generateId prefix entropy = prefix @ entropy"

definition getCurrentUser :: "storage \<Rightarrow> user option" where
  "getCurrentUser st = visa_current_user st"

definition setCurrentUser :: "user \<Rightarrow> storage \<Rightarrow> storage" where
  "setCurrentUser u st = st\<lparr>visa_current_user := Some u\<rparr>"

definition clearCurrentUser :: "storage \<Rightarrow> storage" where
  "clearCurrentUser st = st\<lparr>visa_current_user := None\<rparr>"

definition getUsers :: "storage \<Rightarrow> user list" where
  "getUsers st = visa_users st"

definition saveUsers :: "user list \<Rightarrow> storage \<Rightarrow> storage" where
  "saveUsers us st = st\<lparr>visa_users := us\<rparr>"

definition findUserByEmail :: "storage \<Rightarrow> string \<Rightarrow> user option" where
  "findUserByEmail st email =
     find (\<lambda>u. toLowerCase (user_email u) = toLowerCase email) (getUsers st)"

definition findUserById :: "storage \<Rightarrow> string \<Rightarrow> user option" where
  "findUserById st userId = find (\<lambda>u. user_id u = userId) (getUsers st)"

text \<open>
  The argument of \<open>registerUser\<close>. A field the caller left out reads as the empty
  string: \<open>!userData.email\<close> and \<open>userData.phone || ''\<close> treat both alike.
\<close>

record userData =
  reg_email :: string
  reg_password :: string
  reg_name :: string
  reg_phone :: string
  reg_nationality :: string
  reg_currentLocation :: string

definition registerUser ::
  "string \<Rightarrow> string \<Rightarrow> userData \<Rightarrow> storage \<Rightarrow> user outcome \<times> storage" where
  "registerUser entropy now userData st =
     (if reg_email userData = [] \<or> reg_password userData = [] \<or> reg_name userData = []
      then (Failure ''Please fill in all required fields'', st)
      else case findUserByEmail st (reg_email userData) of
        Some existingUser \<Rightarrow> (Failure ''This email is already registered'', st)
      | None \<Rightarrow>
          let newUser = \<lparr>
                user_id = generateId ''usr_'' entropy,
                user_name = JStr (trim (reg_name userData)),
                user_email = toLowerCase (trim (reg_email userData)),
                user_password = Some (reg_password userData),
                user_createdAt = now,
                user_profile = [
                  ''fullName'' \<mapsto> JStr (trim (reg_name userData)),
                  ''email'' \<mapsto> JStr (toLowerCase (trim (reg_email userData))),
                  ''phone'' \<mapsto> JStr (reg_phone userData),
                  ''nationality'' \<mapsto> JStr (reg_nationality userData),
                  ''currentLocation'' \<mapsto> JStr (reg_currentLocation userData)],
                user_applications = Some [] \<rparr>;
              st1 = saveUsers (getUsers st @ [newUser]) st;
              st2 = setCurrentUser newUser st1
          in (Success newUser, st2))"

definition loginUser :: "string \<Rightarrow> string \<Rightarrow> storage \<Rightarrow> user outcome \<times> storage" where
  "loginUser email password st =
     (if email = [] \<or> password = []
      then (Failure ''Please enter both email and password'', st)
      else case findUserByEmail st email of
        None \<Rightarrow> (Failure ''No account found with this email address'', st)
      | Some u \<Rightarrow>
          if user_password u \<noteq> Some password
          then (Failure ''Incorrect password. Please try again.'', st)
          else let sessionUser = u\<lparr>user_password := None\<rparr>
               in (Success sessionUser, setCurrentUser sessionUser st))"

definition logoutUser :: "storage \<Rightarrow> string outcome \<times> storage" where
  "logoutUser st = (Success ''Logged out successfully'', clearCurrentUser st)"

definition updateUserProfile ::
  "string \<Rightarrow> obj \<Rightarrow> storage \<Rightarrow> user outcome \<times> storage" where
  "updateUserProfile userId profileData st =
     (let users = getUsers st in
      case findIndex (\<lambda>u. user_id u = userId) users of
        None \<Rightarrow> (Failure ''User not found'', st)
      | Some userIndex \<Rightarrow>
          let u = users ! userIndex;
              u1 = u\<lparr>user_profile :=
                     (user_profile u ++ profileData)(''email'' \<mapsto> JStr (user_email u))\<rparr>;
              u2 = (if truthy (profileData ''fullName'')
                    then u1\<lparr>user_name := the (profileData ''fullName'')\<rparr> else u1);
              st1 = saveUsers (users[userIndex := u2]) st;
              sessionUser = u2\<lparr>user_password := None\<rparr>
          in (Success sessionUser, setCurrentUser sessionUser st1))"

definition updateUserPassword ::
  "string \<Rightarrow> string \<Rightarrow> storage \<Rightarrow> string outcome \<times> storage" where
  "updateUserPassword userId newPassword st =
     (let users = getUsers st in
      case findIndex (\<lambda>u. user_id u = userId) users of
        None \<Rightarrow> (Failure ''User not found'', st)
      | Some userIndex \<Rightarrow>
          (Success ''Password updated successfully'',
           saveUsers (users[userIndex := (users ! userIndex)\<lparr>user_password := Some newPassword\<rparr>]) st))"

subsection \<open>Applications\<close>

definition getApplications :: "storage \<Rightarrow> obj list" where
  "getApplications st = visa_applications st"

definition getUserApplications :: "storage \<Rightarrow> string \<Rightarrow> obj list" where
  "getUserApplications st userId =
     filter (\<lambda>app. app ''userId'' = Some (JStr userId)) (getApplications st)"

definition getApplicationById :: "storage \<Rightarrow> string \<Rightarrow> obj option" where
  "getApplicationById st applicationId =
     find (\<lambda>app. app ''id'' = Some (JStr applicationId)) (getApplications st)"

text \<open>
  \<open>addApplication\<close>: the spread \<open>...applicationData\<close> comes last in the object
  literal, so the caller's properties override the five defaults (\<open>++\<close> prefers its right
  argument). The summary pushed on the user's list reads five properties of the new
  application; an undefined one is not stored (\<open>|`\<close> restricts the map to the keys).
\<close>

definition addApplication ::
  "string \<Rightarrow> string \<Rightarrow> string \<Rightarrow> string \<Rightarrow> obj \<Rightarrow> storage \<Rightarrow> obj outcome \<times> storage" where
  "addApplication entropy now1 now2 userId applicationData st =
     (case findUserById st userId of
        None \<Rightarrow> (Failure ''User not found'', st)
      | Some existing \<Rightarrow>
          let newApplication =
                [''id'' \<mapsto> JStr (generateId ''app_'' entropy),
                 ''userId'' \<mapsto> JStr userId,
                 ''status'' \<mapsto> JStr ''pending'',
                 ''createdAt'' \<mapsto> JStr now1,
                 ''updatedAt'' \<mapsto> JStr now2] ++ applicationData;
              st1 = st\<lparr>visa_applications := getApplications st @ [newApplication]\<rparr>;
              users = getUsers st1
          in case findIndex (\<lambda>u. user_id u = userId) users of
               None \<Rightarrow> (Success newApplication, st1)
             | Some userIndex \<Rightarrow>
                 let u = users ! userIndex;
                     summary = (case user_applications u of None \<Rightarrow> [] | Some apps \<Rightarrow> apps);
                     u1 = u\<lparr>user_applications := Some (summary @
                            [newApplication |` {''id'', ''destination'', ''visaType'',
                                                ''status'', ''createdAt''}])\<rparr>;
                     st2 = saveUsers (users[userIndex := u1]) st1;
                     sessionUser = u1\<lparr>user_password := None\<rparr>
                 in (Success newApplication, setCurrentUser sessionUser st2))"

definition updateApplication ::
  "string \<Rightarrow> string \<Rightarrow> string \<Rightarrow> obj \<Rightarrow> storage \<Rightarrow> obj outcome \<times> storage" where
  "updateApplication now userId applicationId applicationData st =
     (let applications = getApplications st in
      case findIndex (\<lambda>app. app ''id'' = Some (JStr applicationId) \<and>
                             app ''userId'' = Some (JStr userId)) applications of
        None \<Rightarrow> (Failure ''Application not found'', st)
      | Some appIndex \<Rightarrow>
          let app1 = ((applications ! appIndex) ++ applicationData)(''updatedAt'' \<mapsto> JStr now)
          in (Success app1, st\<lparr>visa_applications := applications[appIndex := app1]\<rparr>))"

text \<open>
  \<open>deleteApplication\<close>: the user's list is read with \<open>.filter\<close> directly, so a user
  object without an \<open>applications\<close> property makes the call throw, after the
  applications key has been written.
\<close>

definition deleteApplication ::
  "string \<Rightarrow> string \<Rightarrow> storage \<Rightarrow> string outcome \<times> storage" where
  "deleteApplication userId applicationId st =
     (let original = getApplications st;
          applications = filter (\<lambda>app. \<not> (app ''id'' = Some (JStr applicationId) \<and>
                                           app ''userId'' = Some (JStr userId))) original
      in if length applications = length original
         then (Failure ''Application not found'', st)
         else
           let st1 = st\<lparr>visa_applications := applications\<rparr>;
               users = getUsers st1
           in case findIndex (\<lambda>u. user_id u = userId) users of
                None \<Rightarrow> (Success ''Application deleted successfully'', st1)
              | Some userIndex \<Rightarrow>
                  (case user_applications (users ! userIndex) of
                     None \<Rightarrow> (Throws_TypeError, st1)
                   | Some summary \<Rightarrow>
                       let u1 = (users ! userIndex)\<lparr>user_applications :=
                                  Some (filter (\<lambda>app. app ''id'' \<noteq> Some (JStr applicationId))
                                          summary)\<rparr>;
                           st2 = saveUsers (users[userIndex := u1]) st1;
                           sessionUser = u1\<lparr>user_password := None\<rparr>
                       in (Success ''Application deleted successfully'',
                           setCurrentUser sessionUser st2)))"

definition updateApplicationStatus ::
  "string \<Rightarrow> string \<Rightarrow> string \<Rightarrow> string \<Rightarrow> string \<Rightarrow> storage \<Rightarrow> obj outcome \<times> storage" where
  "updateApplicationStatus now1 now2 applicationId status adminNotes st =
     (let applications = getApplications st in
      case findIndex (\<lambda>app. app ''id'' = Some (JStr applicationId)) applications of
        None \<Rightarrow> (Failure ''Application not found'', st)
      | Some appIndex \<Rightarrow>
          let app1 = (applications ! appIndex)
                       (''status'' \<mapsto> JStr status,
                        ''adminNotes'' \<mapsto> JStr adminNotes,
                        ''updatedAt'' \<mapsto> JStr now1);
              app2 = (if status = ''approved'' then app1(''approvedAt'' \<mapsto> JStr now2) else app1)
          in (Success app2, st\<lparr>visa_applications := applications[appIndex := app2]\<rparr>))"

section \<open>The store of the second \<open>Storage\<close> object (hashed passwords, per-user keys)\<close>

text \<open>
  The second implementation keeps \<open>{id, email, password, fullName, createdAt}\<close> under
  \<open>visa_guide_users\<close>, with \<open>password\<close> the output of \<open>hashPassword\<close>, the session
  \<open>{id, email, fullName}\<close> under \<open>visa_guide_current_user\<close>, and one chat history per
  user under \<open>visa_guide_chat_history_\<close> followed by the user id. These are the keys
  that login and the chat functions read and write. Its functions carry the suffix
  \<open>_hashed\<close> where the name is also one of \<open>storage.js\<close>.
\<close>

record account =
  acct_id :: string
  acct_email :: string
  acct_password :: string
  acct_fullName :: string
  acct_createdAt :: string

record session =
  sess_id :: string
  sess_email :: string
  sess_fullName :: string

record hashed_storage =
  visa_guide_users :: "account list"
  visa_guide_current_user :: "session option"
  visa_guide_chat_history :: "string \<rightharpoonup> obj list"

subsection \<open>\<open>hashPassword\<close> and \<open>verifyPassword\<close>\<close>

text \<open>
  \<open>ToInt32\<close> of ECMAScript, which the bitwise operators \<open><<\<close> and \<open>&\<close> apply to
  their operands: the number modulo \<open>2^32\<close>, read as a signed 32-bit value. The
  subtraction and the addition of the loop body are exact on numbers of this size.
\<close>

definition toInt32 :: "int \<Rightarrow> int" where
  "toInt32 x = (let r = x mod 2 ^ 32 in if r \<ge> 2 ^ 31 then r - 2 ^ 32 else r)"

text \<open>One round of the loop: \<open>hash = ((hash << 5) - hash) + char; hash = hash & hash\<close>.\<close>

definition hash_step :: "int \<Rightarrow> char \<Rightarrow> int" where
  "hash_step hash c = toInt32 ((toInt32 (hash * 2 ^ 5) - hash) + of_char c)"

text \<open>\<open>Number.prototype.toString(16)\<close> on a non-negative integer.\<close>

definition hex_digit :: "nat \<Rightarrow> char" where
  "hex_digit d = ''0123456789abcdef'' ! d"

fun toString16 :: "nat \<Rightarrow> string" where
  "toString16 n =
     (if n < 16 then [hex_digit n] else toString16 (n div 16) @ [hex_digit (n mod 16)])"

declare toString16.simps [simp del]

definition hashPassword :: "string \<Rightarrow> string" where
  "hashPassword password = ''hash_'' @ toString16 (nat \<bar>foldl hash_step 0 password\<bar>)"

definition verifyPassword :: "string \<Rightarrow> string \<Rightarrow> bool" where
  "verifyPassword password hash = (hashPassword password = hash)"

subsection \<open>Login\<close>

definition getUsers_hashed :: "hashed_storage \<Rightarrow> account list" where
  "getUsers_hashed st = visa_guide_users st"

definition findUserByEmail_hashed :: "hashed_storage \<Rightarrow> string \<Rightarrow> account option" where
  "findUserByEmail_hashed st email =
     find (\<lambda>u. toLowerCase (acct_email u) = toLowerCase email) (getUsers_hashed st)"

definition setCurrentUser_hashed :: "session \<Rightarrow> hashed_storage \<Rightarrow> hashed_storage" where
  "setCurrentUser_hashed s st = st\<lparr>visa_guide_current_user := Some s\<rparr>"

definition loginUser_hashed ::
  "string \<Rightarrow> string \<Rightarrow> hashed_storage \<Rightarrow> session outcome \<times> hashed_storage" where
  "loginUser_hashed email password st =
     (case findUserByEmail_hashed st email of
        None \<Rightarrow> (Failure ''No account found with this email'', st)
      | Some u \<Rightarrow>
          if \<not> verifyPassword password (acct_password u)
          then (Failure ''Incorrect password'', st)
          else
            let s = \<lparr>sess_id = acct_id u, sess_email = acct_email u,
                     sess_fullName = acct_fullName u\<rparr>
            in (Success s, setCurrentUser_hashed s st))"

subsection \<open>Chat history\<close>

definition getChatHistory :: "hashed_storage \<Rightarrow> string \<Rightarrow> obj list" where
  "getChatHistory st userId =
     (case visa_guide_chat_history st userId of None \<Rightarrow> [] | Some history \<Rightarrow> history)"

text \<open>
  \<open>addChatMessage\<close> pushes \<open>{role: message.role, content: message.content, timestamp}\<close>
  and then \<open>splice\<close>s the first \<open>history.length - 100\<close> entries away when the array
  is longer than 100.
\<close>

definition addChatMessage :: "string \<Rightarrow> string \<Rightarrow> obj \<Rightarrow> hashed_storage \<Rightarrow> hashed_storage" where
  "addChatMessage now userId message st =
     (let pushed = getChatHistory st userId @
                     [(message |` {''role'', ''content''})(''timestamp'' \<mapsto> JStr now)];
          history = (if length pushed > 100 then drop (length pushed - 100) pushed else pushed)
      in st\<lparr>visa_guide_chat_history := (visa_guide_chat_history st)(userId \<mapsto> history)\<rparr>)"

definition clearChatHistory :: "string \<Rightarrow> hashed_storage \<Rightarrow> hashed_storage" where
  "clearChatHistory userId st =
     st\<lparr>visa_guide_chat_history := (visa_guide_chat_history st)(userId \<mapsto> [])\<rparr>"

section \<open>Example states\<close>

text \<open>
  The states the closed examples below run on. Those of \<open>storage.js\<close> are reached
  from a \<open>localStorage\<close> with no key set by the operations themselves (lemmas
  \<open>ann_store_reached\<close>, \<open>ann_bob_store_reached\<close>, \<open>ann_app_store_reached\<close> and
  \<open>clash_store_reached\<close>).
\<close>

definition empty_storage :: storage where
  "empty_storage = \<lparr>visa_users = [], visa_current_user = None, visa_applications = []\<rparr>"

definition ann_data :: userData where
  "ann_data = \<lparr>reg_email = ''a@x.com'', reg_password = ''secret1'', reg_name = ''Ann'',
                reg_phone = [], reg_nationality = [], reg_currentLocation = []\<rparr>"

definition bob_data :: userData where
  "bob_data = \<lparr>reg_email = ''b@x.com'', reg_password = ''hunter2'', reg_name = ''Bob'',
                reg_phone = [], reg_nationality = [], reg_currentLocation = []\<rparr>"

text \<open>The same registration as \<open>ann_data\<close>, typed with a space before the address.\<close>

definition padded_data :: userData where
  "padded_data = \<lparr>reg_email = '' a@x.com'', reg_password = ''secret1'', reg_name = ''Ann'',
                   reg_phone = [], reg_nationality = [], reg_currentLocation = []\<rparr>"

definition ann :: user where
  "ann = \<lparr>user_id = ''usr_1'', user_name = JStr ''Ann'', user_email = ''a@x.com'',
           user_password = Some ''secret1'', user_createdAt = ''2024-01-01'',
           user_profile = [''fullName'' \<mapsto> JStr ''Ann'', ''email'' \<mapsto> JStr ''a@x.com'',
                           ''phone'' \<mapsto> JStr [], ''nationality'' \<mapsto> JStr [],
                           ''currentLocation'' \<mapsto> JStr []],
           user_applications = Some []\<rparr>"

definition bob :: user where
  "bob = \<lparr>user_id = ''usr_2'', user_name = JStr ''Bob'', user_email = ''b@x.com'',
           user_password = Some ''hunter2'', user_createdAt = ''2024-01-02'',
           user_profile = [''fullName'' \<mapsto> JStr ''Bob'', ''email'' \<mapsto> JStr ''b@x.com'',
                           ''phone'' \<mapsto> JStr [], ''nationality'' \<mapsto> JStr [],
                           ''currentLocation'' \<mapsto> JStr []],
           user_applications = Some []\<rparr>"

text \<open>Ann has registered; then Bob as well, so that the session is Bob's.\<close>

definition ann_store :: storage where
  "ann_store = \<lparr>visa_users = [ann], visa_current_user = Some ann, visa_applications = []\<rparr>"

definition ann_bob_store :: storage where
  "ann_bob_store =
     \<lparr>visa_users = [ann, bob], visa_current_user = Some bob, visa_applications = []\<rparr>"

text \<open>Ann's application \<open>app_7\<close>, with the form fields of the spec's scenario.\<close>

definition france_fields :: obj where
  "france_fields = [''destination'' \<mapsto> JStr ''France'', ''visaType'' \<mapsto> JStr ''tourist'']"

definition ann_app :: obj where
  "ann_app = [''id'' \<mapsto> JStr ''app_7'', ''userId'' \<mapsto> JStr ''usr_1'',
              ''status'' \<mapsto> JStr ''pending'', ''createdAt'' \<mapsto> JStr ''2024-01-03'',
              ''updatedAt'' \<mapsto> JStr ''2024-01-03''] ++ france_fields"

definition summary_of :: "obj \<Rightarrow> obj" where
  "summary_of app = app |` {''id'', ''destination'', ''visaType'', ''status'', ''createdAt''}"

definition ann_app_store :: storage where
  "ann_app_store =
     \<lparr>visa_users = [ann\<lparr>user_applications := Some [summary_of ann_app]\<rparr>, bob],
      visa_current_user = Some (ann\<lparr>user_applications := Some [summary_of ann_app],
                                     user_password := None\<rparr>),
      visa_applications = [ann_app]\<rparr>"

text \<open>
  Bob's application, added after Ann's with an \<open>id\<close> property among its form fields:
  the spread lets it replace the generated id, so both applications are \<open>app_7\<close>.
\<close>

definition bob_fields :: obj where
  "bob_fields = [''id'' \<mapsto> JStr ''app_7'', ''destination'' \<mapsto> JStr ''Japan'']"

definition bob_app :: obj where
  "bob_app = [''id'' \<mapsto> JStr ''app_8'', ''userId'' \<mapsto> JStr ''usr_2'',
              ''status'' \<mapsto> JStr ''pending'', ''createdAt'' \<mapsto> JStr ''2024-01-04'',
              ''updatedAt'' \<mapsto> JStr ''2024-01-04''] ++ bob_fields"

definition clash_store :: storage where
  "clash_store =
     \<lparr>visa_users = [ann\<lparr>user_applications := Some [summary_of ann_app]\<rparr>,
                     bob\<lparr>user_applications := Some [summary_of bob_app]\<rparr>],
      visa_current_user = Some (bob\<lparr>user_applications := Some [summary_of bob_app],
                                     user_password := None\<rparr>),
      visa_applications = [ann_app, bob_app]\<rparr>"

text \<open>A store of the second implementation: one account, whose password is \<open>secret1\<close>.\<close>

definition hashed_store :: hashed_storage where
  "hashed_store =
     \<lparr>visa_guide_users =
        [\<lparr>acct_id = ''u1'', acct_email = ''a@x.com'', acct_password = hashPassword ''secret1'',
          acct_fullName = ''Ann'', acct_createdAt = ''2024-01-01''\<rparr>],
      visa_guide_current_user = None,
      visa_guide_chat_history = Map.empty\<rparr>"

text \<open>
  The same store after a hundred chat messages of user \<open>u1\<close>: the oldest says
  \<open>first\<close>, the other ninety-nine say \<open>hi\<close> (lemma \<open>full_chat_store_reached\<close>).
\<close>

definition greeting :: obj where
  "greeting = [''role'' \<mapsto> JStr ''user'', ''content'' \<mapsto> JStr ''hi'',
               ''timestamp'' \<mapsto> JStr ''2024-01-05'']"

definition first_message :: obj where
  "first_message = [''role'' \<mapsto> JStr ''user'', ''content'' \<mapsto> JStr ''first'',
                    ''timestamp'' \<mapsto> JStr ''2024-01-05'']"

definition full_chat_store :: hashed_storage where
  "full_chat_store =
     hashed_store\<lparr>visa_guide_chat_history :=
       [''u1'' \<mapsto> first_message # replicate 99 greeting]\<rparr>"

section \<open>Facts about \<open>findIndex\<close>\<close>

lemma findIndex_Some_iff:
  "findIndex P xs = Some i \<longleftrightarrow> i < length xs \<and> P (xs ! i) \<and> (\<forall>j<i. \<not> P (xs ! j))"
proof (induction xs arbitrary: i)
  case Nil
  then show ?case by simp
next
  case (Cons x xs)
  show ?case
  proof (cases "P x")
    case True
    then show ?thesis by (cases i) auto
  next
    case False
    show ?thesis
    proof (cases i)
      case 0
      with False show ?thesis by auto
    next
      case (Suc k)
      have "(\<forall>j<Suc k. \<not> P ((x # xs) ! j)) \<longleftrightarrow> (\<forall>j<k. \<not> P (xs ! j))"
        using False by (auto simp: less_Suc_eq_0_disj)
      with False Suc Cons.IH [of k] show ?thesis by auto
    qed
  qed
qed

lemma findIndex_None_iff: "findIndex P xs = None \<longleftrightarrow> find P xs = None"
  by (induction xs) auto

lemma find_Some_findIndex:
  "find P xs = Some x \<longleftrightarrow> (\<exists>i. findIndex P xs = Some i \<and> xs ! i = x)"
  by (induction xs) auto

lemma findIndex_update:
  assumes "findIndex P xs = Some i" and "P y"
  shows "findIndex P (xs[i := y]) = Some i"
  using assms by (auto simp: findIndex_Some_iff)

lemma find_update:
  assumes "findIndex P xs = Some i" and "P y"
  shows "find P (xs[i := y]) = Some y"
  using findIndex_update [OF assms] assms(1)
  by (auto simp: find_Some_findIndex findIndex_Some_iff)

section \<open>The example states are reachable\<close>

lemma lower_ann: "toLowerCase ''a@x.com'' = ''a@x.com''"
  by code_simp

lemma lower_bob: "toLowerCase ''b@x.com'' = ''b@x.com''"
  by code_simp

lemma lower_padded: "toLowerCase '' a@x.com'' = '' a@x.com''"
  by code_simp

lemma trim_ann: "trim ''a@x.com'' = ''a@x.com''"
  by code_simp

lemma trim_bob: "trim ''b@x.com'' = ''b@x.com''"
  by code_simp

lemma trim_padded: "trim '' a@x.com'' = ''a@x.com''"
  by code_simp

lemma trim_Ann: "trim ''Ann'' = ''Ann''"
  by code_simp

lemma trim_Bob: "trim ''Bob'' = ''Bob''"
  by code_simp

lemmas eval_strings =
  lower_ann lower_bob lower_padded trim_ann trim_bob trim_padded trim_Ann trim_Bob

lemmas store_defs =
  getUsers_def saveUsers_def setCurrentUser_def clearCurrentUser_def getCurrentUser_def
  getApplications_def findUserByEmail_def findUserById_def generateId_def

lemma ann_store_reached:
  "registerUser ''1'' ''2024-01-01'' ann_data empty_storage = (Success ann, ann_store)"
  by (simp add: registerUser_def ann_data_def empty_storage_def ann_def ann_store_def
      store_defs eval_strings Let_def)

lemma ann_bob_store_reached:
  "registerUser ''2'' ''2024-01-02'' bob_data ann_store = (Success bob, ann_bob_store)"
  by (simp add: registerUser_def bob_data_def ann_def bob_def ann_store_def ann_bob_store_def
      store_defs eval_strings Let_def)

lemma ann_app_store_reached:
  "addApplication ''7'' ''2024-01-03'' ''2024-01-03'' ''usr_1'' france_fields ann_bob_store
     = (Success ann_app, ann_app_store)"
  by (simp add: addApplication_def ann_def bob_def ann_bob_store_def ann_app_store_def
      ann_app_def summary_of_def store_defs Let_def)

lemma clash_store_reached:
  "addApplication ''8'' ''2024-01-04'' ''2024-01-04'' ''usr_2'' bob_fields ann_app_store
     = (Success bob_app, clash_store)"
  by (simp add: addApplication_def ann_def bob_def clash_store_def ann_app_store_def
      ann_app_def bob_app_def summary_of_def store_defs Let_def)

lemma hash_secret1: "hashPassword ''secret1'' = ''hash_756e8781''"
  by (simp add: hashPassword_def hash_step_def toInt32_def toString16.simps hex_digit_def)

lemma hash_wrong: "hashPassword ''wrong'' = ''hash_6c26dad''"
  by (simp add: hashPassword_def hash_step_def toInt32_def toString16.simps hex_digit_def)

lemma chat_messages_pile_up:
  assumes "length h + n \<le> 100"
  shows "(addChatMessage ''2024-01-05'' ''u1''
            [''role'' \<mapsto> JStr ''user'', ''content'' \<mapsto> JStr ''hi''] ^^ n)
           (hashed_store\<lparr>visa_guide_chat_history := [''u1'' \<mapsto> h]\<rparr>)
         = hashed_store\<lparr>visa_guide_chat_history := [''u1'' \<mapsto> h @ replicate n greeting]\<rparr>"
  using assms
proof (induction n)
  case 0
  then show ?case by simp
next
  case (Suc n)
  define say_hi where "say_hi = addChatMessage ''2024-01-05'' ''u1''
                                  [''role'' \<mapsto> JStr ''user'', ''content'' \<mapsto> JStr ''hi'']"
  from Suc.prems have "length h + n \<le> 100"
    by simp
  from Suc.IH [OF this]
  have "(say_hi ^^ n) (hashed_store\<lparr>visa_guide_chat_history := [''u1'' \<mapsto> h]\<rparr>)
      = hashed_store\<lparr>visa_guide_chat_history := [''u1'' \<mapsto> h @ replicate n greeting]\<rparr>"
    unfolding say_hi_def .
  then have "(say_hi ^^ Suc n) (hashed_store\<lparr>visa_guide_chat_history := [''u1'' \<mapsto> h]\<rparr>)
      = say_hi (hashed_store\<lparr>visa_guide_chat_history := [''u1'' \<mapsto> h @ replicate n greeting]\<rparr>)"
    by simp
  also have "\<dots> = hashed_store\<lparr>visa_guide_chat_history :=
                      [''u1'' \<mapsto> h @ replicate n greeting @ [greeting]]\<rparr>"
    using Suc.prems
    by (simp add: say_hi_def addChatMessage_def getChatHistory_def Let_def greeting_def)
  also have "replicate n greeting @ [greeting] = replicate (Suc n) greeting"
    by (simp add: replicate_append_same)
  finally show ?case
    by (simp only: say_hi_def)
qed

lemma full_chat_store_reached:
  "(addChatMessage ''2024-01-05'' ''u1''
      [''role'' \<mapsto> JStr ''user'', ''content'' \<mapsto> JStr ''hi''] ^^ 99)
     (addChatMessage ''2024-01-05'' ''u1''
        [''role'' \<mapsto> JStr ''user'', ''content'' \<mapsto> JStr ''first''] hashed_store)
   = full_chat_store"
proof -
  have first: "addChatMessage ''2024-01-05'' ''u1''
        [''role'' \<mapsto> JStr ''user'', ''content'' \<mapsto> JStr ''first''] hashed_store
      = hashed_store\<lparr>visa_guide_chat_history := [''u1'' \<mapsto> [first_message]]\<rparr>"
    by (simp add: addChatMessage_def getChatHistory_def Let_def hashed_store_def
        first_message_def)
  show ?thesis
    unfolding first
    by (subst chat_messages_pile_up) (simp_all add: full_chat_store_def)
qed

section \<open>The claims\<close>

text \<open>
  C1, where the code departs from it. \<open>registerUser\<close> passes the new user object to
  \<open>setCurrentUser\<close> as it is: after Ann's registration on an empty store the session
  holds her password.
\<close>

theorem registerUser_session_keeps_password:
  "registerUser ''1'' ''2024-01-01'' ann_data empty_storage = (Success ann, ann_store)
   \<and> map_option user_password
         (visa_current_user (snd (registerUser ''1'' ''2024-01-01'' ann_data empty_storage)))
       = Some (Some ''secret1'')"
  by (simp add: ann_store_reached ann_store_def ann_def)

text \<open>So it is after every successful registration.\<close>

lemma registerUser_session_password:
  assumes "registerUser entropy now userData st = (Success u, st')"
  shows "visa_current_user st' = Some u \<and> user_password u = Some (reg_password userData)"
  using assms
  by (auto simp: registerUser_def store_defs Let_def split: if_splits option.splits)

text \<open>
  The other operations that write the session delete the password from the copy first.
\<close>

lemma loginUser_session_stripped:
  assumes "loginUser email password st = (Success s, st')"
  shows "visa_current_user st' = Some s \<and> user_password s = None"
  using assms
  by (auto simp: loginUser_def setCurrentUser_def Let_def split: if_splits option.splits)

lemma addApplication_session_stripped:
  assumes r: "addApplication entropy now1 now2 userId applicationData st = (Success app, st')"
  shows "\<exists>s. visa_current_user st' = Some s \<and> user_password s = None \<and> user_id s = userId"
proof -
  from r obtain u where "findUserById st userId = Some u"
    by (auto simp: addApplication_def split: option.splits)
  then obtain i where i: "findIndex (\<lambda>u. user_id u = userId) (visa_users st) = Some i"
    by (auto simp: findUserById_def getUsers_def find_Some_findIndex)
  then have "user_id (visa_users st ! i) = userId"
    by (simp add: findIndex_Some_iff)
  with r i show ?thesis
    by (auto simp: addApplication_def store_defs Let_def split: option.splits)
qed

lemma deleteApplication_session_stripped:
  assumes r: "deleteApplication userId applicationId st = (Success m, st')"
    and u: "findUserById st userId = Some u"
  shows "\<exists>s. visa_current_user st' = Some s \<and> user_password s = None \<and> user_id s = userId"
proof -
  from u obtain i where i: "findIndex (\<lambda>u. user_id u = userId) (visa_users st) = Some i"
    by (auto simp: findUserById_def getUsers_def find_Some_findIndex)
  then have "user_id (visa_users st ! i) = userId"
    by (simp add: findIndex_Some_iff)
  with r i show ?thesis
    by (auto simp: deleteApplication_def store_defs Let_def split: option.splits if_splits)
qed

text \<open>
  C2, as the code has it. For every state in which user \<open>userId\<close> exists and every
  \<open>applicationData\<close> that carries no \<open>userId\<close> property of its own (or carries this
  very \<open>userId\<close>), \<open>addApplication\<close> succeeds, the applications of that user are
  those of before followed by the new one (so exactly one more), and the summary list of
  the user found under \<open>userId\<close> is the one of before (empty when the user had none)
  followed by one entry, whose \<open>id\<close> is the \<open>id\<close> of the new application.
\<close>

theorem addApplication_grows_by_one:
  assumes u: "findUserById st userId = Some u"
    and own: "applicationData ''userId'' = None \<or> applicationData ''userId'' = Some (JStr userId)"
  shows "\<exists>app st'. addApplication entropy now1 now2 userId applicationData st = (Success app, st')
           \<and> getUserApplications st' userId = getUserApplications st userId @ [app]
           \<and> length (getUserApplications st' userId) = Suc (length (getUserApplications st userId))
           \<and> (\<exists>u' s. findUserById st' userId = Some u'
                 \<and> user_applications u'
                     = Some ((case user_applications u of None \<Rightarrow> [] | Some apps \<Rightarrow> apps) @ [s])
                 \<and> s ''id'' = app ''id'' \<and> app ''id'' \<noteq> None)"
proof -
  from u obtain i where i: "findIndex (\<lambda>u. user_id u = userId) (visa_users st) = Some i"
    and ui: "visa_users st ! i = u"
    by (auto simp: findUserById_def getUsers_def find_Some_findIndex)
  from i ui have idu: "user_id u = userId"
    by (auto simp: findIndex_Some_iff)
  define app where "app =
     [''id'' \<mapsto> JStr (generateId ''app_'' entropy), ''userId'' \<mapsto> JStr userId,
      ''status'' \<mapsto> JStr ''pending'', ''createdAt'' \<mapsto> JStr now1,
      ''updatedAt'' \<mapsto> JStr now2] ++ applicationData"
  define s where "s = app |` {''id'', ''destination'', ''visaType'', ''status'', ''createdAt''}"
  define u1 where "u1 = u\<lparr>user_applications :=
      Some ((case user_applications u of None \<Rightarrow> [] | Some apps \<Rightarrow> apps) @ [s])\<rparr>"
  define st' where "st' = setCurrentUser (u1\<lparr>user_password := None\<rparr>)
      (saveUsers ((visa_users st)[i := u1]) (st\<lparr>visa_applications := visa_applications st @ [app]\<rparr>))"
  have run: "addApplication entropy now1 now2 userId applicationData st = (Success app, st')"
    using u i ui
    by (simp add: addApplication_def getUsers_def getApplications_def Let_def
        app_def s_def u1_def st'_def)
  have owner: "app ''userId'' = Some (JStr userId)"
    using own by (auto simp: app_def map_add_def)
  have apps': "visa_applications st' = visa_applications st @ [app]"
    and users': "visa_users st' = (visa_users st)[i := u1]"
    by (simp_all add: st'_def setCurrentUser_def saveUsers_def)
  have listed: "getUserApplications st' userId = getUserApplications st userId @ [app]"
    using owner by (simp add: getUserApplications_def getApplications_def apps')
  have "user_id u1 = userId"
    using idu by (simp add: u1_def)
  with i have found: "findUserById st' userId = Some u1"
    unfolding findUserById_def getUsers_def users' by (rule find_update)
  have sid: "s ''id'' = app ''id''"
    by (simp add: s_def)
  have hasid: "app ''id'' \<noteq> None"
    by (simp add: app_def map_add_def split: option.splits)
  have summ: "user_applications u1
      = Some ((case user_applications u of None \<Rightarrow> [] | Some apps \<Rightarrow> apps) @ [s])"
    by (simp add: u1_def)
  from found summ sid hasid have
    "\<exists>u' s. findUserById st' userId = Some u'
       \<and> user_applications u'
           = Some ((case user_applications u of None \<Rightarrow> [] | Some apps \<Rightarrow> apps) @ [s])
       \<and> s ''id'' = app ''id'' \<and> app ''id'' \<noteq> None"
    by blast
  with run listed show ?thesis
    by simp
qed

theorem addApplication_grows_by_one_witness:
  "map_option user_id (findUserById ann_bob_store ''usr_1'') = Some ''usr_1''
   \<and> france_fields ''userId'' = None
   \<and> length (getUserApplications ann_bob_store ''usr_1'') = 0
   \<and> length (getUserApplications
         (snd (addApplication ''7'' ''2024-01-03'' ''2024-01-03'' ''usr_1'' france_fields
                 ann_bob_store)) ''usr_1'') = 1
   \<and> map_option (\<lambda>u. map_option (map (\<lambda>s. s ''id'')) (user_applications u))
         (findUserById
            (snd (addApplication ''7'' ''2024-01-03'' ''2024-01-03'' ''usr_1'' france_fields
                    ann_bob_store)) ''usr_1'')
       = Some (Some [Some (JStr ''app_7'')])"
proof -
  have h: "findUserById ann_bob_store ''usr_1'' = Some ann"
    by (simp add: ann_bob_store_def ann_def bob_def store_defs)
  have own: "france_fields ''userId'' = None"
    by (simp add: france_fields_def)
  have before: "getUserApplications ann_bob_store ''usr_1'' = []"
    by (simp add: getUserApplications_def getApplications_def ann_bob_store_def)
  have newid: "ann_app ''id'' = Some (JStr ''app_7'')"
    by (simp add: ann_app_def france_fields_def)
  have none: "user_applications ann = Some []" and idann: "user_id ann = ''usr_1''"
    by (simp_all add: ann_def)
  have own': "france_fields ''userId'' = None \<or> france_fields ''userId'' = Some (JStr ''usr_1'')"
    using own by simp
  from addApplication_grows_by_one [where st = ann_bob_store and userId = "''usr_1''"
      and u = ann and applicationData = france_fields and entropy = "''7''"
      and ?now1.0 = "''2024-01-03''" and ?now2.0 = "''2024-01-03''", OF h own']
  show ?thesis
    using h own before newid none idann by (auto simp: ann_app_store_reached)
qed

theorem addApplication_foreign_userId_counterexample:
  "map_option user_id (findUserById ann_bob_store ''usr_1'') = Some ''usr_1''
   \<and> succeeded (fst (addApplication ''7'' ''2024-01-03'' ''2024-01-03'' ''usr_1''
                       [''userId'' \<mapsto> JStr ''usr_2''] ann_bob_store))
   \<and> length (getUserApplications ann_bob_store ''usr_1'') = 0
   \<and> length (getUserApplications
         (snd (addApplication ''7'' ''2024-01-03'' ''2024-01-03'' ''usr_1''
                 [''userId'' \<mapsto> JStr ''usr_2''] ann_bob_store)) ''usr_1'') = 0
   \<and> length (getUserApplications
         (snd (addApplication ''7'' ''2024-01-03'' ''2024-01-03'' ''usr_1''
                 [''userId'' \<mapsto> JStr ''usr_2''] ann_bob_store)) ''usr_2'') = 1"
  by (simp add: addApplication_def getUserApplications_def ann_bob_store_def ann_def bob_def
      store_defs Let_def)

text \<open>
  C3, as the code has it. After a successful \<open>deleteApplication\<close>, no application
  with that id that belongs to \<open>userId\<close> remains in the applications collection (so
  none with that id at all, when before the call every application with that id
  belonged to \<open>userId\<close>), and the summary list of the user found under \<open>userId\<close>
  holds no entry with that id.
\<close>

theorem deleteApplication_removes:
  assumes r: "deleteApplication userId applicationId st = (Success m, st')"
  shows "(\<forall>app \<in> set (visa_applications st').
            \<not> (app ''id'' = Some (JStr applicationId) \<and> app ''userId'' = Some (JStr userId)))
         \<and> ((\<forall>app \<in> set (visa_applications st).
                app ''id'' = Some (JStr applicationId) \<longrightarrow> app ''userId'' = Some (JStr userId))
              \<longrightarrow> (\<forall>app \<in> set (visa_applications st'). app ''id'' \<noteq> Some (JStr applicationId)))
         \<and> (\<forall>u'. findUserById st' userId = Some u' \<longrightarrow>
                (\<exists>summary. user_applications u' = Some summary
                   \<and> (\<forall>s \<in> set summary. s ''id'' \<noteq> Some (JStr applicationId))))"
proof -
  define kept where "kept = filter (\<lambda>app. \<not> (app ''id'' = Some (JStr applicationId) \<and>
                                              app ''userId'' = Some (JStr userId)))
                              (visa_applications st)"
  from r have apps': "visa_applications st' = kept"
    by (auto simp: deleteApplication_def store_defs Let_def kept_def
        split: if_splits option.splits)
  have owned: "\<forall>app \<in> set kept.
      \<not> (app ''id'' = Some (JStr applicationId) \<and> app ''userId'' = Some (JStr userId))"
    by (simp add: kept_def)
  have unshared: "(\<forall>app \<in> set (visa_applications st).
        app ''id'' = Some (JStr applicationId) \<longrightarrow> app ''userId'' = Some (JStr userId))
      \<longrightarrow> (\<forall>app \<in> set kept. app ''id'' \<noteq> Some (JStr applicationId))"
    by (auto simp: kept_def)
  have summary: "\<exists>summary. user_applications u' = Some summary
                   \<and> (\<forall>s \<in> set summary. s ''id'' \<noteq> Some (JStr applicationId))"
    if found: "findUserById st' userId = Some u'" for u'
  proof (cases "findIndex (\<lambda>u. user_id u = userId) (visa_users st)")
    case None
    with r have "visa_users st' = visa_users st"
      by (auto simp: deleteApplication_def store_defs Let_def split: if_splits)
    with None found show ?thesis
      by (simp add: findUserById_def getUsers_def findIndex_None_iff)
  next
    case (Some i)
    with r obtain old where old: "user_applications (visa_users st ! i) = Some old"
      by (auto simp: deleteApplication_def store_defs Let_def split: if_splits option.splits)
    define u1 where "u1 = (visa_users st ! i)\<lparr>user_applications :=
        Some (filter (\<lambda>app. app ''id'' \<noteq> Some (JStr applicationId)) old)\<rparr>"
    from r Some old have users': "visa_users st' = (visa_users st)[i := u1]"
      by (auto simp: deleteApplication_def store_defs Let_def u1_def split: if_splits)
    from Some have "user_id (visa_users st ! i) = userId"
      by (simp add: findIndex_Some_iff)
    then have "user_id u1 = userId"
      by (simp add: u1_def)
    with Some have "findUserById st' userId = Some u1"
      unfolding findUserById_def getUsers_def users' by (rule find_update)
    with found have "u' = u1" by simp
    then show ?thesis by (simp add: u1_def)
  qed
  from owned unshared summary show ?thesis
    unfolding apps' by blast
qed

theorem deleteApplication_removes_witness:
  "fst (deleteApplication ''usr_1'' ''app_7'' ann_app_store)
     = Success ''Application deleted successfully''
   \<and> map (\<lambda>a. a ''userId'') (filter (\<lambda>a. a ''id'' = Some (JStr ''app_7''))
                                  (visa_applications ann_app_store)) = [Some (JStr ''usr_1'')]
   \<and> filter (\<lambda>a. a ''id'' = Some (JStr ''app_7''))
         (visa_applications (snd (deleteApplication ''usr_1'' ''app_7'' ann_app_store))) = []
   \<and> map_option user_applications
         (findUserById (snd (deleteApplication ''usr_1'' ''app_7'' ann_app_store)) ''usr_1'')
       = Some (Some [])"
proof -
  define after where "after = snd (deleteApplication ''usr_1'' ''app_7'' ann_app_store)"
  have ids: "ann_app ''id'' = Some (JStr ''app_7'')" "ann_app ''userId'' = Some (JStr ''usr_1'')"
    "summary_of ann_app ''id'' = Some (JStr ''app_7'')"
    by (simp_all add: ann_app_def france_fields_def summary_of_def)
  have ok: "fst (deleteApplication ''usr_1'' ''app_7'' ann_app_store)
              = Success ''Application deleted successfully''"
    by (simp add: deleteApplication_def ann_app_store_def ann_def bob_def ids store_defs Let_def)
  then have run: "deleteApplication ''usr_1'' ''app_7'' ann_app_store
                    = (Success ''Application deleted successfully'', after)"
    by (simp add: after_def prod_eq_iff)
  have before: "visa_applications ann_app_store = [ann_app]"
    by (simp add: ann_app_store_def)
  have only: "\<forall>app \<in> set (visa_applications ann_app_store).
      app ''id'' = Some (JStr ''app_7'') \<longrightarrow> app ''userId'' = Some (JStr ''usr_1'')"
    by (simp add: before ids)
  have found: "findUserById after ''usr_1'' = Some (ann\<lparr>user_applications := Some []\<rparr>)"
    unfolding after_def
    by (simp add: deleteApplication_def ann_app_store_def ann_def bob_def ids store_defs Let_def)
  from deleteApplication_removes [OF run] only
  have gone: "\<forall>app \<in> set (visa_applications after). app ''id'' \<noteq> Some (JStr ''app_7'')"
    by blast
  then have "filter (\<lambda>a. a ''id'' = Some (JStr ''app_7'')) (visa_applications after) = []"
    by (simp add: filter_empty_conv)
  with ok found show ?thesis
    by (simp add: after_def [symmetric] before ids)
qed

text \<open>
  In the store where Ann's and Bob's applications share the id \<open>app_7\<close>, deleting
  Ann's succeeds and Bob's is still found under that id.
\<close>

theorem deleteApplication_shared_id_counterexample:
  "succeeded (fst (deleteApplication ''usr_1'' ''app_7'' clash_store))
   \<and> getApplicationById (snd (deleteApplication ''usr_1'' ''app_7'' clash_store)) ''app_7''
       = Some bob_app
   \<and> bob_app ''id'' = Some (JStr ''app_7'')"
proof -
  have ids: "ann_app ''id'' = Some (JStr ''app_7'')" "ann_app ''userId'' = Some (JStr ''usr_1'')"
    "bob_app ''id'' = Some (JStr ''app_7'')" "bob_app ''userId'' = Some (JStr ''usr_2'')"
    by (simp_all add: ann_app_def france_fields_def bob_app_def bob_fields_def)
  show ?thesis
    by (simp add: deleteApplication_def getApplicationById_def clash_store_def ann_def bob_def
        ids store_defs Let_def)
qed

text \<open>
  C4, where the code departs from it. \<open>registerUser\<close> stores the trimmed address, and
  \<open>findUserByEmail\<close> compares the stored address with the untrimmed argument: the same
  registration, typed twice with a space before the address, succeeds twice, and two
  users hold the address \<open>a@x.com\<close>.
\<close>

theorem registerUser_padded_email_twice:
  "registerUser ''1'' ''2024-01-01'' padded_data empty_storage = (Success ann, ann_store)
   \<and> succeeded (fst (registerUser ''2'' ''2024-01-02'' padded_data ann_store))
   \<and> map user_email (visa_users (snd (registerUser ''2'' ''2024-01-02'' padded_data ann_store)))
       = [''a@x.com'', ''a@x.com'']"
  by (simp add: registerUser_def padded_data_def empty_storage_def ann_def ann_store_def
      store_defs eval_strings Let_def)

text \<open>
  What does hold: when the first registration was typed without surrounding white space,
  a second one whose address differs from it at most in case is turned away as a
  duplicate, and one user holds the address.
\<close>

lemma lower_char_idem: "lower_char (lower_char c) = lower_char c"
  by (auto simp: lower_char_def Let_def)

lemma toLowerCase_idem: "toLowerCase (toLowerCase s) = toLowerCase s"
  by (simp add: toLowerCase_def lower_char_idem)




lemma registerUser_duplicate_rejected:
  assumes first: "registerUser entropy1 now1 data1 st = (Success u1, st1)"
    and trimmed: "trim (reg_email data1) = reg_email data1"
    and same: "toLowerCase (reg_email data2) = toLowerCase (reg_email data1)"
    and filled: "reg_email data2 \<noteq> []" "reg_password data2 \<noteq> []" "reg_name data2 \<noteq> []"
  shows "registerUser entropy2 now2 data2 st1 = (Failure ''This email is already registered'', st1)
         \<and> length (filter (\<lambda>u. toLowerCase (user_email u) = toLowerCase (reg_email data1))
                     (visa_users st1)) = 1"
proof -
  from first have none: "findUserByEmail st (reg_email data1) = None"
    by (auto simp: registerUser_def split: if_splits option.splits)
  from first have users1: "visa_users st1 = visa_users st @ [u1]"
    and mail: "user_email u1 = toLowerCase (trim (reg_email data1))"
    by (auto simp: registerUser_def store_defs Let_def split: if_splits option.splits)
  from mail trimmed have low: "toLowerCase (user_email u1) = toLowerCase (reg_email data1)"
    by (simp add: toLowerCase_idem)
  from none have old: "filter (\<lambda>u. toLowerCase (user_email u) = toLowerCase (reg_email data1))
                         (visa_users st) = []"
    by (auto simp: findUserByEmail_def getUsers_def find_None_iff filter_empty_conv)
  have "findUserByEmail st1 (reg_email data2) \<noteq> None"
    using low same by (auto simp: findUserByEmail_def getUsers_def users1 find_None_iff)
  then have "registerUser entropy2 now2 data2 st1
               = (Failure ''This email is already registered'', st1)"
    using filled by (auto simp: registerUser_def)
  moreover have "length (filter (\<lambda>u. toLowerCase (user_email u) = toLowerCase (reg_email data1))
                     (visa_users st1)) = 1"
    by (simp add: users1 old low)
  ultimately show ?thesis by simp
qed

text \<open>
  C5, as the code has it. For every state with a user under the given email and a
  password that fails the credential check against that user (in \<open>storage.js\<close>: the
  stored password is not this string; in the hashed implementation: \<open>verifyPassword\<close>
  rejects it, that is, its hash is not the stored hash): \<open>loginUser\<close> of \<open>storage.js\<close>
  fails and leaves the whole store, the session with it, as it was, and the failure is
  the invalid-credentials one when email and password are both non-empty (an empty one
  is turned away before the lookup, with the validation message); \<open>loginUser\<close> of the
  hashed implementation has no such guard, returns its invalid-credentials failure and
  leaves the store as it was.
\<close>

theorem loginUser_wrong_password:
  "(email \<noteq> [] \<and> password \<noteq> [] \<and> findUserByEmail st email = Some u
      \<and> user_password u \<noteq> Some password
      \<longrightarrow> loginUser email password st = (Failure ''Incorrect password. Please try again.'', st))
   \<and> (findUserByEmail st email = Some u \<and> user_password u \<noteq> Some password
      \<longrightarrow> \<not> succeeded (fst (loginUser email password st)) \<and> snd (loginUser email password st) = st)
   \<and> (findUserByEmail_hashed hst email = Some a \<and> \<not> verifyPassword password (acct_password a)
      \<longrightarrow> loginUser_hashed email password hst = (Failure ''Incorrect password'', hst))"
  by (simp add: loginUser_def loginUser_hashed_def)

theorem loginUser_wrong_password_witness:
  "findUserByEmail ann_store ''A@x.com'' = Some ann
   \<and> user_password ann \<noteq> Some ''wrong''
   \<and> loginUser ''A@x.com'' ''wrong'' ann_store
       = (Failure ''Incorrect password. Please try again.'', ann_store)
   \<and> map_option acct_id (findUserByEmail_hashed hashed_store ''A@x.com'') = Some ''u1''
   \<and> loginUser_hashed ''A@x.com'' ''wrong'' hashed_store = (Failure ''Incorrect password'', hashed_store)"
proof -
  have lower: "toLowerCase ''A@x.com'' = ''a@x.com''"
    by code_simp
  have u: "findUserByEmail ann_store ''A@x.com'' = Some ann"
    by (simp add: findUserByEmail_def getUsers_def ann_store_def ann_def lower lower_ann)
  have p: "user_password ann \<noteq> Some ''wrong''"
    by (simp add: ann_def)
  define acct where "acct = hd (visa_guide_users hashed_store)"
  have a: "findUserByEmail_hashed hashed_store ''a@x.com'' = Some acct"
    by (simp add: findUserByEmail_hashed_def getUsers_hashed_def hashed_store_def acct_def lower_ann)
  have v: "\<not> verifyPassword ''wrong'' (acct_password acct)"
    by (simp add: verifyPassword_def acct_def hashed_store_def hash_secret1 hash_wrong)
  have a': "findUserByEmail_hashed hashed_store ''A@x.com'' = Some acct"
    by (simp add: findUserByEmail_hashed_def getUsers_hashed_def hashed_store_def acct_def
        lower lower_ann)
  have i: "acct_id acct = ''u1''"
    by (simp add: acct_def hashed_store_def)
  from loginUser_wrong_password [of "''A@x.com''" "''wrong''" ann_store ann hashed_store acct]
  show ?thesis
    using u p a' v i by simp
qed

theorem loginUser_empty_password_counterexample:
  "findUserByEmail ann_store ''a@x.com'' = Some ann
   \<and> user_password ann \<noteq> Some []
   \<and> fst (loginUser ''a@x.com'' [] ann_store) = Failure ''Please enter both email and password''
   \<and> fst (loginUser ''a@x.com'' [] ann_store) \<noteq> Failure ''Incorrect password. Please try again.''"
  by (simp add: loginUser_def findUserByEmail_def getUsers_def ann_store_def ann_def lower_ann)

text \<open>
  The check of the hashed implementation compares hashes, not passwords: \<open>Aa\<close> and
  \<open>BB\<close> have one hash, so each is accepted for an account registered with the other.
  Such a password does not fail the credential check, and the statement above is not
  about it.
\<close>

lemma hashPassword_collision: "hashPassword ''Aa'' = hashPassword ''BB''"
  by (simp add: hashPassword_def hash_step_def toInt32_def)

lemma loginUser_hashed_accepts_collision:
  assumes "findUserByEmail_hashed st email = Some a"
    and "acct_password a = hashPassword ''Aa''"
  shows "succeeded (fst (loginUser_hashed email ''BB'' st))"
  using assms
  by (simp add: loginUser_hashed_def verifyPassword_def hashPassword_collision Let_def)

text \<open>
  C6, as the code has it. Every successful \<open>updateUserProfile\<close> writes the session:
  whatever \<open>visa_current_user\<close> held before (nothing, this user or another one), it
  holds afterwards the updated user \<open>userId\<close> without the password.
\<close>

theorem updateUserProfile_sets_session:
  assumes "updateUserProfile userId profileData st = (Success s, st')"
  shows "visa_current_user st' = Some s \<and> user_id s = userId \<and> user_password s = None
         \<and> (\<exists>u'. findUserById st' userId = Some u' \<and> s = u'\<lparr>user_password := None\<rparr>)"
proof -
  from assms obtain i where i: "findIndex (\<lambda>u. user_id u = userId) (visa_users st) = Some i"
    by (auto simp: updateUserProfile_def getUsers_def Let_def split: option.splits)
  define u where "u = visa_users st ! i"
  define u2 where "u2 = (if truthy (profileData ''fullName'')
       then u\<lparr>user_profile := (user_profile u ++ profileData)(''email'' \<mapsto> JStr (user_email u)),
               user_name := the (profileData ''fullName'')\<rparr>
       else u\<lparr>user_profile := (user_profile u ++ profileData)(''email'' \<mapsto> JStr (user_email u))\<rparr>)"
  from i have idu: "user_id u = userId"
    by (simp add: findIndex_Some_iff u_def)
  then have id2: "user_id u2 = userId"
    by (simp add: u2_def)
  from assms i have s: "s = u2\<lparr>user_password := None\<rparr>"
    and st': "st' = setCurrentUser (u2\<lparr>user_password := None\<rparr>) (saveUsers ((visa_users st)[i := u2]) st)"
    by (auto simp: updateUserProfile_def getUsers_def Let_def u_def u2_def)
  have "findUserById st' userId = Some u2"
    unfolding findUserById_def getUsers_def st'
    using find_update [OF i, of u2] id2 by (simp add: setCurrentUser_def saveUsers_def)
  moreover have "visa_current_user st' = Some s"
    by (simp add: st' s setCurrentUser_def)
  ultimately show ?thesis using s id2 by auto
qed

theorem updateUserProfile_sets_session_witness:
  "succeeded (fst (updateUserProfile ''usr_1'' Map.empty ann_bob_store))
   \<and> map_option user_id
        (visa_current_user (snd (updateUserProfile ''usr_1'' Map.empty ann_bob_store)))
       = Some ''usr_1''
   \<and> map_option user_password
        (visa_current_user (snd (updateUserProfile ''usr_1'' Map.empty ann_bob_store)))
       = Some None"
proof -
  obtain s st' where r: "updateUserProfile ''usr_1'' Map.empty ann_bob_store = (Success s, st')"
    by (simp add: updateUserProfile_def ann_bob_store_def ann_def bob_def store_defs Let_def)
  from updateUserProfile_sets_session [OF r] show ?thesis
    by (simp add: r)
qed

theorem updateUserProfile_session_counterexample:
  "map_option user_id (visa_current_user ann_bob_store) = Some ''usr_2''
   \<and> succeeded (fst (updateUserProfile ''usr_1'' Map.empty ann_bob_store))
   \<and> map_option user_id
        (visa_current_user (snd (updateUserProfile ''usr_1'' Map.empty ann_bob_store)))
       = Some ''usr_1''
   \<and> visa_current_user (snd (logoutUser ann_store)) = None
   \<and> succeeded (fst (updateUserProfile ''usr_1'' Map.empty (snd (logoutUser ann_store))))
   \<and> map_option user_id
        (visa_current_user (snd (updateUserProfile ''usr_1'' Map.empty (snd (logoutUser ann_store)))))
       = Some ''usr_1''"
  by (simp add: updateUserProfile_def logoutUser_def ann_bob_store_def ann_store_def ann_def
      bob_def store_defs Let_def)

text \<open>
  C7. For every state with an application of the given id, \<open>updateApplicationStatus\<close>
  succeeds on the first such application: it sets \<open>status\<close>, \<open>adminNotes\<close> and
  \<open>updatedAt\<close>, sets \<open>approvedAt\<close> exactly when the new status is \<open>approved\<close>
  (otherwise \<open>approvedAt\<close> is what it was), leaves every other property of the
  application alone, and leaves the users (with their embedded summaries) and the session
  as they were.
\<close>

theorem updateApplicationStatus_effect:
  assumes "getApplicationById st applicationId = Some app"
  shows "\<exists>i app' st'. i < length (visa_applications st) \<and> visa_applications st ! i = app
           \<and> updateApplicationStatus now1 now2 applicationId status adminNotes st = (Success app', st')
           \<and> visa_applications st' = (visa_applications st)[i := app']
           \<and> app' ''status'' = Some (JStr status)
           \<and> app' ''adminNotes'' = Some (JStr adminNotes)
           \<and> app' ''updatedAt'' = Some (JStr now1)
           \<and> app' ''approvedAt'' = (if status = ''approved'' then Some (JStr now2) else app ''approvedAt'')
           \<and> (\<forall>k. k \<notin> {''status'', ''adminNotes'', ''updatedAt'', ''approvedAt''} \<longrightarrow> app' k = app k)
           \<and> visa_users st' = visa_users st
           \<and> visa_current_user st' = visa_current_user st"
proof -
  from assms obtain i where
    i: "findIndex (\<lambda>a. a ''id'' = Some (JStr applicationId)) (visa_applications st) = Some i"
    and ai: "visa_applications st ! i = app"
    by (auto simp: getApplicationById_def getApplications_def find_Some_findIndex)
  from i have len: "i < length (visa_applications st)"
    by (simp add: findIndex_Some_iff)
  define app1 where "app1 = app(''status'' \<mapsto> JStr status, ''adminNotes'' \<mapsto> JStr adminNotes,
                                 ''updatedAt'' \<mapsto> JStr now1)"
  define app2 where "app2 = (if status = ''approved'' then app1(''approvedAt'' \<mapsto> JStr now2) else app1)"
  define st' where "st' = st\<lparr>visa_applications := (visa_applications st)[i := app2]\<rparr>"
  have run: "updateApplicationStatus now1 now2 applicationId status adminNotes st = (Success app2, st')"
    using i ai by (simp add: updateApplicationStatus_def getApplications_def Let_def app1_def app2_def st'_def)
  have fields: "app2 ''status'' = Some (JStr status)" "app2 ''adminNotes'' = Some (JStr adminNotes)"
    "app2 ''updatedAt'' = Some (JStr now1)"
    "app2 ''approvedAt'' = (if status = ''approved'' then Some (JStr now2) else app ''approvedAt'')"
    by (simp_all add: app2_def app1_def)
  have rest: "\<forall>k. k \<notin> {''status'', ''adminNotes'', ''updatedAt'', ''approvedAt''} \<longrightarrow> app2 k = app k"
    by (simp add: app2_def app1_def)
  have frame: "visa_applications st' = (visa_applications st)[i := app2]"
    "visa_users st' = visa_users st" "visa_current_user st' = visa_current_user st"
    by (simp_all add: st'_def)
  from len ai run fields rest frame show ?thesis by blast
qed

theorem updateApplicationStatus_effect_witness:
  "map_option (\<lambda>a. a ''status'') (getApplicationById ann_app_store ''app_7'')
     = Some (Some (JStr ''pending''))
   \<and> map (\<lambda>a. (a ''status'', a ''adminNotes'', a ''updatedAt'', a ''approvedAt'', a ''userId''))
        (visa_applications
           (snd (updateApplicationStatus ''2024-02-01'' ''2024-02-02'' ''app_7'' ''approved'' ''ok''
                   ann_app_store)))
     = [(Some (JStr ''approved''), Some (JStr ''ok''), Some (JStr ''2024-02-01''),
         Some (JStr ''2024-02-02''), Some (JStr ''usr_1''))]
   \<and> visa_users (snd (updateApplicationStatus ''2024-02-01'' ''2024-02-02'' ''app_7'' ''approved''
                        ''ok'' ann_app_store)) = visa_users ann_app_store
   \<and> visa_current_user (snd (updateApplicationStatus ''2024-02-01'' ''2024-02-02'' ''app_7''
                        ''approved'' ''ok'' ann_app_store)) = visa_current_user ann_app_store"
proof -
  have h: "getApplicationById ann_app_store ''app_7'' = Some ann_app"
    by (simp add: getApplicationById_def getApplications_def ann_app_store_def ann_app_def
        france_fields_def)
  have apps: "visa_applications ann_app_store = [ann_app]"
    by (simp add: ann_app_store_def)
  have owner: "ann_app ''userId'' = Some (JStr ''usr_1'')"
    and pending: "ann_app ''status'' = Some (JStr ''pending'')"
    by (simp_all add: ann_app_def france_fields_def)
  from updateApplicationStatus_effect [OF h, of "''2024-02-01''" "''2024-02-02''" "''approved''" "''ok''"]
  obtain i app' st' where i: "i < length (visa_applications ann_app_store)"
    and run: "updateApplicationStatus ''2024-02-01'' ''2024-02-02'' ''app_7'' ''approved'' ''ok''
                ann_app_store = (Success app', st')"
    and apps': "visa_applications st' = (visa_applications ann_app_store)[i := app']"
    and fields: "app' ''status'' = Some (JStr ''approved'')" "app' ''adminNotes'' = Some (JStr ''ok'')"
      "app' ''updatedAt'' = Some (JStr ''2024-02-01'')"
      "app' ''approvedAt'' = Some (JStr ''2024-02-02'')"
    and rest: "\<forall>k. k \<notin> {''status'', ''adminNotes'', ''updatedAt'', ''approvedAt''} \<longrightarrow> app' k = ann_app k"
    and frame: "visa_users st' = visa_users ann_app_store"
      "visa_current_user st' = visa_current_user ann_app_store"
    by auto
  from i apps have "i = 0" by simp
  with apps' apps have apps'': "visa_applications st' = [app']" by simp
  from rest have "app' ''userId'' = ann_app ''userId''" by simp
  with owner have "app' ''userId'' = Some (JStr ''usr_1'')" by simp
  with h pending apps'' fields frame show ?thesis by (simp add: run)
qed

text \<open>
  C8. For every user and every stored chat history of at most 100 entries,
  \<open>addChatMessage\<close> leaves a history of at most 100 entries whose last entry is the new
  message (its \<open>role\<close> and \<open>content\<close>, stamped with the time of the call); a history
  that already had 100 entries loses its first, oldest entry and nothing else, a shorter
  one loses nothing.
\<close>

theorem addChatMessage_bounded:
  assumes "length (getChatHistory st userId) \<le> 100"
  shows "getChatHistory (addChatMessage now userId message st) userId
           = (if length (getChatHistory st userId) = 100
              then tl (getChatHistory st userId) else getChatHistory st userId)
             @ [(message |` {''role'', ''content''})(''timestamp'' \<mapsto> JStr now)]
         \<and> length (getChatHistory (addChatMessage now userId message st) userId) \<le> 100
         \<and> last (getChatHistory (addChatMessage now userId message st) userId)
             = (message |` {''role'', ''content''})(''timestamp'' \<mapsto> JStr now)"
proof -
  define h where "h = getChatHistory st userId"
  define e where "e = (message |` {''role'', ''content''})(''timestamp'' \<mapsto> JStr now)"
  define h' where "h' = (if length (h @ [e]) > 100 then drop (length (h @ [e]) - 100) (h @ [e])
                          else h @ [e])"
  have after: "getChatHistory (addChatMessage now userId message st) userId = h'"
    by (simp add: addChatMessage_def getChatHistory_def Let_def h_def e_def h'_def)
  have shape: "h' = (if length h = 100 then tl h else h) @ [e]"
  proof (cases "length h = 100")
    case True
    then have "h \<noteq> []" by auto
    then have "drop 1 (h @ [e]) = tl h @ [e]"
      by (cases h) simp_all
    with True show ?thesis by (simp add: h'_def)
  next
    case False
    with assms have "length h < 100" by (simp add: h_def)
    with False show ?thesis by (simp add: h'_def)
  qed
  have "length h' \<le> 100"
    using assms by (auto simp: shape h_def)
  moreover have "last h' = e"
    by (simp add: shape)
  ultimately show ?thesis
    using after shape by (simp add: h_def e_def)
qed

theorem addChatMessage_bounded_witness:
  "length (getChatHistory full_chat_store ''u1'') = 100
   \<and> hd (getChatHistory full_chat_store ''u1'') ''content'' = Some (JStr ''first'')
   \<and> length (getChatHistory (addChatMessage ''2024-01-06'' ''u1''
                 [''role'' \<mapsto> JStr ''user'', ''content'' \<mapsto> JStr ''bye''] full_chat_store) ''u1'') = 100
   \<and> hd (getChatHistory (addChatMessage ''2024-01-06'' ''u1''
                 [''role'' \<mapsto> JStr ''user'', ''content'' \<mapsto> JStr ''bye''] full_chat_store) ''u1'')
        ''content'' = Some (JStr ''hi'')
   \<and> last (getChatHistory (addChatMessage ''2024-01-06'' ''u1''
                 [''role'' \<mapsto> JStr ''user'', ''content'' \<mapsto> JStr ''bye''] full_chat_store) ''u1'')
        ''content'' = Some (JStr ''bye'')"
proof -
  have h: "getChatHistory full_chat_store ''u1'' = first_message # replicate 99 greeting"
    by (simp add: getChatHistory_def full_chat_store_def)
  have len: "length (getChatHistory full_chat_store ''u1'') \<le> 100"
    by (simp add: h)
  have r: "replicate 99 greeting = greeting # replicate 98 greeting"
    by (simp add: replicate_Suc [symmetric] del: replicate_Suc)
  from addChatMessage_bounded [OF len, of "''2024-01-06''"
      "[''role'' \<mapsto> JStr ''user'', ''content'' \<mapsto> JStr ''bye'']"]
  show ?thesis
    by (simp add: h r greeting_def first_message_def)
qed

text \<open>
  C9. For every existing user and every \<open>profileData\<close>, also one with an \<open>email\<close>
  key, \<open>updateUserProfile\<close> succeeds and leaves the stored email of that user as it
  was: the list of the users' emails is the same, the user found under \<open>userId\<close>
  afterwards has the email of before, and the \<open>email\<close> of the profile is that email,
  not the caller's.
\<close>

theorem updateUserProfile_keeps_email:
  assumes "findUserById st userId = Some u"
  shows "\<exists>s st'. updateUserProfile userId profileData st = (Success s, st')
           \<and> map user_email (visa_users st') = map user_email (visa_users st)
           \<and> (\<exists>u'. findUserById st' userId = Some u' \<and> user_email u' = user_email u
                    \<and> user_profile u' ''email'' = Some (JStr (user_email u)))"
proof -
  from assms obtain i where i: "findIndex (\<lambda>u. user_id u = userId) (visa_users st) = Some i"
    and ui: "visa_users st ! i = u"
    by (auto simp: findUserById_def getUsers_def find_Some_findIndex)
  from i have len: "i < length (visa_users st)" and idu: "user_id (visa_users st ! i) = userId"
    by (simp_all add: findIndex_Some_iff)
  define u1 where "u1 = u\<lparr>user_profile :=
                     (user_profile u ++ profileData)(''email'' \<mapsto> JStr (user_email u))\<rparr>"
  define u2 where "u2 = (if truthy (profileData ''fullName'')
                    then u1\<lparr>user_name := the (profileData ''fullName'')\<rparr> else u1)"
  define st' where "st' = setCurrentUser (u2\<lparr>user_password := None\<rparr>)
                            (saveUsers ((visa_users st)[i := u2]) st)"
  have run: "updateUserProfile userId profileData st = (Success (u2\<lparr>user_password := None\<rparr>), st')"
    using i ui by (simp add: updateUserProfile_def getUsers_def Let_def u1_def u2_def st'_def)
  have users': "visa_users st' = (visa_users st)[i := u2]"
    by (simp add: st'_def setCurrentUser_def saveUsers_def)
  have e2: "user_email u2 = user_email u" and id2: "user_id u2 = userId"
    and p2: "user_profile u2 ''email'' = Some (JStr (user_email u))"
    using ui idu by (auto simp: u2_def u1_def)
  have "map user_email (visa_users st') = (map user_email (visa_users st))[i := user_email u2]"
    by (simp add: users' map_update)
  also have "\<dots> = map user_email (visa_users st)"
    using len ui e2 by (simp add: list_update_same_conv)
  finally have emails: "map user_email (visa_users st') = map user_email (visa_users st)" .
  have "findUserById st' userId = Some u2"
    unfolding findUserById_def getUsers_def users'
    using i id2 by (rule find_update)
  with run emails e2 p2 show ?thesis by blast
qed

theorem updateUserProfile_keeps_email_witness:
  "map_option user_email (findUserById ann_store ''usr_1'') = Some ''a@x.com''
   \<and> map_option user_email
        (findUserById (snd (updateUserProfile ''usr_1'' [''email'' \<mapsto> JStr ''eve@x.com''] ann_store))
           ''usr_1'') = Some ''a@x.com''
   \<and> map_option (\<lambda>u. user_profile u ''email'')
        (findUserById (snd (updateUserProfile ''usr_1'' [''email'' \<mapsto> JStr ''eve@x.com''] ann_store))
           ''usr_1'') = Some (Some (JStr ''a@x.com''))"
proof -
  have h: "findUserById ann_store ''usr_1'' = Some ann"
    by (simp add: ann_store_def ann_def store_defs)
  from updateUserProfile_keeps_email [OF h, of "[''email'' \<mapsto> JStr ''eve@x.com'']"]
  show ?thesis using h by (auto simp: ann_def)
qed


text \<open>
  Hence \<open>loginUser\<close> of the hashed implementation accepts the password whose hash the
  account stores.
\<close>

lemma loginUser_hashed_accepts:
  assumes "findUserByEmail_hashed st email = Some a"
    and "acct_password a = hashPassword password"
  shows "succeeded (fst (loginUser_hashed email password st))"
  using assms by (simp add: loginUser_hashed_def verifyPassword_def Let_def)

end
